theory Spec2Isabelle
  imports Complex_Main "HOL-Library.AList" "HOL-Library.Product_Lexorder"
    "HOL-Library.List_Lexorder" "HOL-Library.Char_ord"
begin

section \<open>Numbers and errors\<close>

text \<open>
  The arguments that callers hand to the graph are Python numbers: an \<open>int\<close> (the sample
  edge list uses them) or a \<open>float\<close>. A finite float is modelled by the real number it
  denotes, so rounding is not part of the model; arithmetic on stored values is exact.
  \<open>py_float\<close> is Python's \<open>float(x)\<close>.
\<close>

datatype pynum = PyInt int | PyFloat real

fun py_float :: "pynum \<Rightarrow> real" where
  "py_float (PyInt i) = of_int i"
| "py_float (PyFloat r) = r"

text \<open>
  Search costs are floats that may be \<open>float('inf')\<close>: a finite value or positive
  infinity, ordered and added as Python orders and adds them.
\<close>

datatype pyfloat = Fin real | PosInf

instantiation pyfloat :: "{linorder, plus}"
begin

fun less_eq_pyfloat :: "pyfloat \<Rightarrow> pyfloat \<Rightarrow> bool" where
  "less_eq_pyfloat (Fin a) (Fin b) = (a \<le> b)"
| "less_eq_pyfloat _ PosInf = True"
| "less_eq_pyfloat PosInf (Fin b) = False"

fun less_pyfloat :: "pyfloat \<Rightarrow> pyfloat \<Rightarrow> bool" where
  "less_pyfloat (Fin a) (Fin b) = (a < b)"
| "less_pyfloat (Fin a) PosInf = True"
| "less_pyfloat PosInf _ = False"

fun plus_pyfloat :: "pyfloat \<Rightarrow> pyfloat \<Rightarrow> pyfloat" where
  "plus_pyfloat (Fin a) (Fin b) = Fin (a + b)"
| "plus_pyfloat _ _ = PosInf"

instance
proof
  fix x y z :: pyfloat
  show "(x < y) = (x \<le> y \<and> \<not> y \<le> x)"
    by (cases x; cases y) auto
  show "x \<le> x"
    by (cases x) auto
  show "x \<le> y \<Longrightarrow> y \<le> z \<Longrightarrow> x \<le> z"
    by (cases x; cases y; cases z) auto
  show "x \<le> y \<Longrightarrow> y \<le> x \<Longrightarrow> x = y"
    by (cases x; cases y) auto
  show "x \<le> y \<or> y \<le> x"
    by (cases x; cases y) auto
qed

end

text \<open>
  The exceptions the code can raise: the \<open>ValueError\<close> of the two searches (with its
  message) and the \<open>KeyError\<close> of a dictionary subscript on a missing key.
\<close>

datatype error = ValueError string | KeyError string

section \<open>Edge\<close>

record edge =
  to_node :: string
  distance :: real
  traffic_factor :: real

definition Edge :: "string \<Rightarrow> pynum \<Rightarrow> pynum \<Rightarrow> edge" where
  "Edge v d t = \<lparr>to_node = v, distance = py_float d, traffic_factor = py_float t\<rparr>"

definition effective_weight :: "edge \<Rightarrow> real" where
  "effective_weight e = distance e * traffic_factor e"


section \<open>Graph\<close>

text \<open>
  Both dictionaries of the class are association lists in insertion order, as a Python
  \<open>dict\<close> keeps them: \<open>AList.update\<close> overwrites the value of a present key in place and
  appends a new key at the end.
\<close>

record graph =
  adj :: "(string \<times> edge list) list"
  coords :: "(string \<times> (real \<times> real)) list"

definition empty_graph :: graph where
  "empty_graph = \<lparr>adj = [], coords = []\<rparr>"

definition has_key :: "('k \<times> 'v) list \<Rightarrow> 'k \<Rightarrow> bool" where
  "has_key d k = (map_of d k \<noteq> None)"

definition add_node :: "graph \<Rightarrow> string \<Rightarrow> (pynum \<times> pynum) option \<Rightarrow> graph" where
  "add_node g node coord =
     (let g1 = (if \<not> has_key (adj g) node then g\<lparr>adj := AList.update node [] (adj g)\<rparr> else g)
      in case coord of
           None \<Rightarrow> g1
         | Some c \<Rightarrow> g1\<lparr>coords := AList.update node (py_float (fst c), py_float (snd c)) (coords g1)\<rparr>)"

text \<open>\<open>self.adj[k].append(e)\<close>: the subscript raises \<open>KeyError\<close> on a missing key.\<close>

definition adj_append :: "graph \<Rightarrow> string \<Rightarrow> edge \<Rightarrow> error + graph" where
  "adj_append g k e =
     (case map_of (adj g) k of
        None \<Rightarrow> Inl (KeyError k)
      | Some es \<Rightarrow> Inr (g\<lparr>adj := AList.update k (es @ [e]) (adj g)\<rparr>))"

definition add_edge :: "graph \<Rightarrow> string \<Rightarrow> string \<Rightarrow> pynum \<Rightarrow> pynum \<Rightarrow> bool \<Rightarrow> error + graph" where
  "add_edge g u v dist_arg traffic_arg bidirectional =
     (let g1 = add_node g u None;
          g2 = add_node g1 v None
      in case adj_append g2 u (Edge v dist_arg traffic_arg) of
           Inl err \<Rightarrow> Inl err
         | Inr g3 \<Rightarrow>
             if bidirectional then adj_append g3 v (Edge u dist_arg traffic_arg)
             else Inr g3)"

definition neighbors :: "graph \<Rightarrow> string \<Rightarrow> edge list" where
  "neighbors g node = (case map_of (adj g) node of None \<Rightarrow> [] | Some es \<Rightarrow> es)"



fun load_from_edge_list :: "graph \<Rightarrow> (string \<times> string \<times> pynum \<times> pynum) list \<Rightarrow> error + graph" where
  "load_from_edge_list g [] = Inr g"
| "load_from_edge_list g ((u, v, d, t) # rest) =
     (case add_edge g u v d t True of
        Inl err \<Rightarrow> Inl err
      | Inr g' \<Rightarrow> load_from_edge_list g' rest)"

section \<open>Priority queue\<close>

text \<open>
  \<open>heapq\<close> keeps a binary heap in a list. \<open>heappop\<close> returns the least item under the
  items' order (tuples compare lexicographically) and leaves the other items in the heap;
  equal items are indistinguishable, so which item is popped next depends only on the
  items held. The model keeps the items in a list and takes the least one out.
\<close>

definition heappush :: "'a list \<Rightarrow> 'a \<Rightarrow> 'a list" where
  "heappush h x = h @ [x]"

definition heappop :: "('a::linorder) list \<Rightarrow> ('a \<times> 'a list) option" where
  "heappop h =
     (case h of
        [] \<Rightarrow> None
      | x # xs \<Rightarrow> (let m = fold min xs x in Some (m, remove1 m h)))"

section \<open>Path reconstruction\<close>

partial_function (option) reconstruct_loop ::
  "(string \<rightharpoonup> string) \<Rightarrow> string \<Rightarrow> string \<Rightarrow> string list \<Rightarrow> string list option" where
  "reconstruct_loop cf start cur path =
     (if cur \<noteq> start then
        (case cf cur of
           None \<Rightarrow> Some []
         | Some c \<Rightarrow> reconstruct_loop cf start c (path @ [cur]))
      else Some (rev (path @ [start])))"

definition reconstruct_path :: "(string \<rightharpoonup> string) \<Rightarrow> string \<Rightarrow> string \<Rightarrow> string list option" where
  "reconstruct_path cf start goal = reconstruct_loop cf start goal []"

section \<open>Uniform-cost search\<close>

record dstate =
  dists :: "string \<rightharpoonup> pyfloat"
  prev :: "string \<rightharpoonup> string"
  pq :: "(pyfloat \<times> string) list"

definition inf_map :: "graph \<Rightarrow> (string \<rightharpoonup> pyfloat)" where
  "inf_map g = map_of (map (\<lambda>(n, es). (n, PosInf)) (adj g))"

fun dijkstra_relax :: "string \<Rightarrow> pyfloat \<Rightarrow> edge list \<Rightarrow> dstate \<Rightarrow> error + dstate" where
  "dijkstra_relax u curr_d [] st = Inr st"
| "dijkstra_relax u curr_d (e # es) st =
     (let v = to_node e;
          w = effective_weight e;
          nd = curr_d + Fin w
      in case dists st v of
           None \<Rightarrow> Inl (KeyError v)
         | Some dv \<Rightarrow>
             if nd < dv then
               dijkstra_relax u curr_d es
                 (st\<lparr>dists := (dists st)(v \<mapsto> nd),
                     prev := (prev st)(v \<mapsto> u),
                     pq := heappush (pq st) (nd, v)\<rparr>)
             else dijkstra_relax u curr_d es st)"

partial_function (option) dijkstra_loop :: "graph \<Rightarrow> dstate \<Rightarrow> (error + dstate) option" where
  "dijkstra_loop g st =
     (case heappop (pq st) of
        None \<Rightarrow> Some (Inr st)
      | Some popped \<Rightarrow>
          (case dists st (snd (fst popped)) of
             None \<Rightarrow> Some (Inl (KeyError (snd (fst popped))))
           | Some du \<Rightarrow>
               if fst (fst popped) > du then dijkstra_loop g (st\<lparr>pq := snd popped\<rparr>)
               else
                 (case dijkstra_relax (snd (fst popped)) (fst (fst popped))
                         (neighbors g (snd (fst popped))) (st\<lparr>pq := snd popped\<rparr>) of
                    Inl err \<Rightarrow> Some (Inl err)
                  | Inr st' \<Rightarrow> dijkstra_loop g st')))"

definition dijkstra ::
  "graph \<Rightarrow> string \<Rightarrow> (error + (string \<rightharpoonup> pyfloat) \<times> (string \<rightharpoonup> string)) option" where
  "dijkstra g start =
     (if \<not> has_key (adj g) start then
        Some (Inl (ValueError (''Start node '' @ [CHR 0x27] @ start @ [CHR 0x27] @ '' not in graph.'')))
      else
        (case dijkstra_loop g
                \<lparr>dists = (inf_map g)(start \<mapsto> Fin 0), prev = Map.empty, pq = [(Fin 0, start)]\<rparr> of
           None \<Rightarrow> None
         | Some (Inl err) \<Rightarrow> Some (Inl err)
         | Some (Inr st) \<Rightarrow> Some (Inr (dists st, prev st))))"

definition shortest_path_dijkstra ::
  "graph \<Rightarrow> string \<Rightarrow> string \<Rightarrow> (error + string list \<times> pyfloat) option" where
  "shortest_path_dijkstra g start end_node =
     (case dijkstra g start of
        None \<Rightarrow> None
      | Some (Inl err) \<Rightarrow> Some (Inl err)
      | Some (Inr (dist_map, prev_map)) \<Rightarrow>
          (case dist_map end_node of
             None \<Rightarrow> Some (Inr ([], PosInf))
           | Some d \<Rightarrow>
               if d = PosInf then Some (Inr ([], PosInf))
               else
                 (case reconstruct_path prev_map start end_node of
                    None \<Rightarrow> None
                  | Some path \<Rightarrow> Some (Inr (path, d)))))"

section \<open>Heuristic-guided search\<close>

definition hypot :: "real \<Rightarrow> real \<Rightarrow> real" where
  "hypot x y = sqrt (x * x + y * y)"

definition heuristic :: "graph \<Rightarrow> string \<Rightarrow> string \<Rightarrow> real" where
  "heuristic g a b =
     (case map_of (coords g) a of
        None \<Rightarrow> 0
      | Some ca \<Rightarrow>
          (case map_of (coords g) b of
             None \<Rightarrow> 0
           | Some cb \<Rightarrow> hypot (fst cb - fst ca) (snd cb - snd ca)))"

record astate =
  open_set :: "(pyfloat \<times> string) list"
  came_from :: "string \<rightharpoonup> string"
  g_score :: "string \<rightharpoonup> pyfloat"
  f_score :: "string \<rightharpoonup> pyfloat"

fun a_star_relax :: "graph \<Rightarrow> string \<Rightarrow> string \<Rightarrow> edge list \<Rightarrow> astate \<Rightarrow> error + astate" where
  "a_star_relax g goal current [] st = Inr st"
| "a_star_relax g goal current (e # es) st =
     (let neighbor = to_node e
      in case g_score st current of
           None \<Rightarrow> Inl (KeyError current)
         | Some gc \<Rightarrow>
             (let tentative_g = gc + Fin (effective_weight e)
              in case g_score st neighbor of
                   None \<Rightarrow> Inl (KeyError neighbor)
                 | Some gn \<Rightarrow>
                     if tentative_g < gn then
                       (let f = tentative_g + Fin (heuristic g neighbor goal)
                        in a_star_relax g goal current es
                             (st\<lparr>came_from := (came_from st)(neighbor \<mapsto> current),
                                 g_score := (g_score st)(neighbor \<mapsto> tentative_g),
                                 f_score := (f_score st)(neighbor \<mapsto> f),
                                 open_set := heappush (open_set st) (f, neighbor)\<rparr>))
                     else a_star_relax g goal current es st))"

partial_function (option) a_star_loop ::
  "graph \<Rightarrow> string \<Rightarrow> string \<Rightarrow> astate \<Rightarrow> (error + string list \<times> pyfloat) option" where
  "a_star_loop g start goal st =
     (case heappop (open_set st) of
        None \<Rightarrow> Some (Inr ([], PosInf))
      | Some popped \<Rightarrow>
          if snd (fst popped) = goal then
            (case reconstruct_path (came_from st) start goal of
               None \<Rightarrow> None
             | Some path \<Rightarrow>
                 (case g_score st goal of
                    None \<Rightarrow> Some (Inl (KeyError goal))
                  | Some gg \<Rightarrow> Some (Inr (path, gg))))
          else
            (case a_star_relax g goal (snd (fst popped)) (neighbors g (snd (fst popped)))
                    (st\<lparr>open_set := snd popped\<rparr>) of
               Inl err \<Rightarrow> Some (Inl err)
             | Inr st' \<Rightarrow> a_star_loop g start goal st'))"

definition a_star :: "graph \<Rightarrow> string \<Rightarrow> string \<Rightarrow> (error + string list \<times> pyfloat) option" where
  "a_star g start goal =
     (if \<not> has_key (adj g) start \<or> \<not> has_key (adj g) goal then
        Some (Inl (ValueError ''Start or goal not in graph.''))
      else
        a_star_loop g start goal
          \<lparr>open_set = heappush [] (Fin 0, start),
           came_from = Map.empty,
           g_score = (inf_map g)(start \<mapsto> Fin 0),
           f_score = (inf_map g)(start \<mapsto> Fin (heuristic g start goal))\<rparr>)"

section \<open>Sample data\<close>

definition get_sample_edges :: "(string \<times> string \<times> pynum \<times> pynum) list" where
  "get_sample_edges =
     [(''A'', ''B'', PyInt 4, PyFloat 1.0),
      (''A'', ''C'', PyInt 2, PyFloat 1.2),
      (''B'', ''C'', PyInt 1, PyFloat 1.0),
      (''B'', ''D'', PyInt 5, PyFloat 1.1),
      (''C'', ''D'', PyInt 8, PyFloat 1.0),
      (''C'', ''E'', PyInt 10, PyFloat 1.3),
      (''D'', ''E'', PyInt 2, PyFloat 1.0),
      (''D'', ''Z'', PyInt 6, PyFloat 1.4),
      (''E'', ''Z'', PyInt 3, PyFloat 1.0)]"

section \<open>Method calls and the graph they leave\<close>




section \<open>Well-formed graphs\<close>

definition endpoints_exist :: "graph \<Rightarrow> bool" where
  "endpoints_exist g =
     (\<forall>entry \<in> set (adj g). \<forall>e \<in> set (snd entry). has_key (adj g) (to_node e))"

definition sample_graph :: graph where
  "sample_graph =
     (case load_from_edge_list empty_graph get_sample_edges of Inr g \<Rightarrow> g | Inl err \<Rightarrow> empty_graph)"


section \<open>The cost of a path\<close>

text \<open>
  The effective weight of the step from \<open>u\<close> to \<open>v\<close> is that of the cheapest stored edge
  \<open>u \<rightarrow> v\<close> (infinite when there is none); the cost of a node sequence adds up its steps.
\<close>

definition min_weight :: "graph \<Rightarrow> string \<Rightarrow> string \<Rightarrow> pyfloat" where
  "min_weight g u v =
     fold min (map (\<lambda>e. Fin (effective_weight e)) (filter (\<lambda>e. to_node e = v) (neighbors g u))) PosInf"

fun path_weight :: "graph \<Rightarrow> string list \<Rightarrow> pyfloat" where
  "path_weight g (u # v # rest) = min_weight g u v + path_weight g (v # rest)"
| "path_weight g [u] = Fin 0"
| "path_weight g [] = Fin 0"

section \<open>Notions used to state and prove the properties of the searches\<close>

text \<open>
  The rest of the theory reasons about the functions above. A graph is taken with the
  two properties that every graph built through \<open>add_edge\<close> with valid weights has:
  \<open>endpoints_exist\<close> and \<open>nonneg_weights\<close> (no effective weight is negative, as it is
  when every distance is non-negative and every congestion factor positive).
  \<open>walk g u c v\<close> is a sequence of stored edges from \<open>u\<close> to \<open>v\<close> of total effective
  weight \<open>c\<close>; \<open>spath\<close> is a walk from the start that repeats no node, built at its end.
  \<open>lab\<close> reads a distance dictionary as a total function (a missing key counts as
  infinity). \<open>labels_ok\<close> is what both searches keep true of their distance and
  predecessor dictionaries; \<open>slack\<close> counts how far the labels can still drop and
  gives the termination order of both loops. \<open>chain\<close> is the path that
  \<open>reconstruct_path\<close> reads off the predecessor dictionary.
\<close>

definition add_edge_graph :: "graph \<Rightarrow> string \<Rightarrow> string \<Rightarrow> pynum \<Rightarrow> pynum \<Rightarrow> bool \<Rightarrow> graph" where
  "add_edge_graph g u v d t b =
     (let g2 = add_node (add_node g u None) v None;
          g3 = g2\<lparr>adj := AList.update u (neighbors g2 u @ [Edge v d t]) (adj g2)\<rparr>
      in if b then g3\<lparr>adj := AList.update v (neighbors g3 v @ [Edge u d t]) (adj g3)\<rparr> else g3)"



inductive spath :: "graph \<Rightarrow> string \<Rightarrow> string list \<Rightarrow> real \<Rightarrow> string \<Rightarrow> bool" for g s where
  spath_start: "has_key (adj g) s \<Longrightarrow> spath g s [s] 0 s"
| spath_step: "spath g s ns c u \<Longrightarrow> e \<in> set (neighbors g u) \<Longrightarrow> to_node e \<notin> set ns \<Longrightarrow>
     spath g s (ns @ [to_node e]) (c + effective_weight e) (to_node e)"


definition labels_ok :: "graph \<Rightarrow> string \<Rightarrow> (string \<Rightarrow> pyfloat) \<Rightarrow> (string \<rightharpoonup> string) \<Rightarrow> bool" where
  "labels_ok g start L P \<longleftrightarrow>
     L start = Fin 0 \<and>
     (\<forall>v u. P v = Some u \<longrightarrow>
        L v \<noteq> PosInf \<and>
        (\<exists>e \<in> set (neighbors g u). to_node e = v \<and> L u + Fin (effective_weight e) \<le> L v)) \<and>
     (\<forall>v. L v \<noteq> PosInf \<and> v \<noteq> start \<longrightarrow> P v \<noteq> None) \<and>
     wf {(u, v). P v = Some u} \<and>
     (\<forall>v c. L v = Fin c \<longrightarrow> (\<exists>ns. spath g start ns c v \<and> (\<forall>y \<in> set ns. L y \<le> Fin c)))"









inductive chain :: "(string \<rightharpoonup> string) \<Rightarrow> string \<Rightarrow> string list \<Rightarrow> string \<Rightarrow> bool" for P s where
  chain_start: "chain P s [s] s"
| chain_step: "chain P s p u \<Longrightarrow> P v = Some u \<Longrightarrow> v \<noteq> s \<Longrightarrow> chain P s (p @ [v]) v"
















section \<open>Graph mutation\<close>

declare dijkstra_loop.simps [code] reconstruct_loop.simps [code] a_star_loop.simps [code]


lemma has_key_update: "has_key (AList.update k v d) k' \<longleftrightarrow> k' = k \<or> has_key d k'"
  by (auto simp: has_key_def update_conv')

lemma set_update_cases:
  "x \<in> set (AList.update k v al) \<Longrightarrow> x = (k, v) \<or> x \<in> set al"
  by (induction al) (auto split: if_splits)

lemma adj_add_node_None:
  "adj (add_node g n None) = (if has_key (adj g) n then adj g else AList.update n [] (adj g))"
  by (simp add: add_node_def)

lemma coords_add_node_None: "coords (add_node g n None) = coords g"
  by (simp add: add_node_def)

lemma has_key_add_node: "has_key (adj (add_node g n c)) k \<longleftrightarrow> k = n \<or> has_key (adj g) k"
  by (cases c) (auto simp: add_node_def has_key_update Let_def)

lemma adj_add_node: "adj (add_node g n c) = adj (add_node g n None)"
  by (cases c) (auto simp: add_node_def Let_def)

lemma endpoints_exist_add_node:
  assumes "endpoints_exist g"
  shows "endpoints_exist (add_node g n c)"
proof -
  have "endpoints_exist (add_node g n None)"
  proof (cases "has_key (adj g) n")
    case True
    then show ?thesis using assms by (simp add: endpoints_exist_def adj_add_node_None)
  next
    case False
    show ?thesis
      unfolding endpoints_exist_def
    proof (intro ballI)
      fix entry e
      assume en: "entry \<in> set (adj (add_node g n None))" and e: "e \<in> set (snd entry)"
      from en False have "entry = (n, []) \<or> entry \<in> set (adj g)"
        using set_update_cases [of entry n "[]" "adj g"] by (simp add: adj_add_node_None)
      with e have "entry \<in> set (adj g)" by auto
      with assms e have "has_key (adj g) (to_node e)" by (auto simp: endpoints_exist_def)
      then show "has_key (adj (add_node g n None)) (to_node e)"
        by (simp add: has_key_add_node)
    qed
  qed
  then show ?thesis
    by (simp add: endpoints_exist_def adj_add_node [of g n c])
qed

lemma adj_append_Inr:
  assumes "has_key (adj g) k"
  shows "adj_append g k e = Inr (g\<lparr>adj := AList.update k (neighbors g k @ [e]) (adj g)\<rparr>)"
  using assms by (auto simp: adj_append_def neighbors_def has_key_def)

lemma endpoints_exist_adj_append:
  assumes "endpoints_exist g" "has_key (adj g) k" "has_key (adj g) (to_node e)"
  shows "endpoints_exist (g\<lparr>adj := AList.update k (neighbors g k @ [e]) (adj g)\<rparr>)"
  unfolding endpoints_exist_def
proof (intro ballI)
  let ?g' = "g\<lparr>adj := AList.update k (neighbors g k @ [e]) (adj g)\<rparr>"
  fix entry e'
  assume en: "entry \<in> set (adj ?g')" and e': "e' \<in> set (snd entry)"
  from en have "entry = (k, neighbors g k @ [e]) \<or> entry \<in> set (adj g)"
    using set_update_cases [of entry k "neighbors g k @ [e]" "adj g"] by simp
  then have "has_key (adj g) (to_node e')"
  proof
    assume eq: "entry = (k, neighbors g k @ [e])"
    from assms(2) obtain es where es: "map_of (adj g) k = Some es"
      by (auto simp: has_key_def)
    then have "(k, es) \<in> set (adj g)" by (rule map_of_SomeD)
    with assms(1) have "\<forall>x \<in> set es. has_key (adj g) (to_node x)"
      by (auto simp: endpoints_exist_def)
    moreover have "neighbors g k = es" using es by (simp add: neighbors_def)
    ultimately show ?thesis using eq e' assms(3) by auto
  next
    assume "entry \<in> set (adj g)"
    with assms(1) e' show ?thesis by (auto simp: endpoints_exist_def)
  qed
  then show "has_key (adj ?g') (to_node e')"
    by (simp add: has_key_update)
qed

lemma add_edge_Inr: "add_edge g u v d t b = Inr (add_edge_graph g u v d t b)"
proof -
  let ?g2 = "add_node (add_node g u None) v None"
  have ku: "has_key (adj ?g2) u" and kv: "has_key (adj ?g2) v"
    by (simp_all add: has_key_add_node)
  let ?g3 = "?g2\<lparr>adj := AList.update u (neighbors ?g2 u @ [Edge v d t]) (adj ?g2)\<rparr>"
  have kv3: "has_key (adj ?g3) v" using kv by (simp add: has_key_update)
  show ?thesis
    by (simp add: add_edge_def add_edge_graph_def Let_def adj_append_Inr [OF ku]
        adj_append_Inr [OF kv3])
qed

lemma has_key_add_edge_graph:
  "has_key (adj (add_edge_graph g u v d t b)) k \<longleftrightarrow> k = u \<or> k = v \<or> has_key (adj g) k"
  by (auto simp: add_edge_graph_def Let_def has_key_update has_key_add_node)

lemma coords_add_edge_graph: "coords (add_edge_graph g u v d t b) = coords g"
  by (simp add: add_edge_graph_def Let_def coords_add_node_None)

lemma endpoints_exist_add_edge_graph:
  assumes "endpoints_exist g"
  shows "endpoints_exist (add_edge_graph g u v d t b)"
proof -
  let ?g2 = "add_node (add_node g u None) v None"
  have e2: "endpoints_exist ?g2"
    using assms by (intro endpoints_exist_add_node)
  have ku: "has_key (adj ?g2) u" and kv: "has_key (adj ?g2) v"
    by (simp_all add: has_key_add_node)
  let ?g3 = "?g2\<lparr>adj := AList.update u (neighbors ?g2 u @ [Edge v d t]) (adj ?g2)\<rparr>"
  have e3: "endpoints_exist ?g3"
    by (rule endpoints_exist_adj_append [OF e2 ku]) (use kv in \<open>simp add: Edge_def\<close>)
  have ku3: "has_key (adj ?g3) u" and kv3: "has_key (adj ?g3) v"
    using ku kv by (simp_all add: has_key_update)
  have "endpoints_exist (?g3\<lparr>adj := AList.update v (neighbors ?g3 v @ [Edge u d t]) (adj ?g3)\<rparr>)"
    by (rule endpoints_exist_adj_append [OF e3 kv3]) (use ku3 in \<open>simp add: Edge_def\<close>)
  with e3 show ?thesis
    by (simp add: add_edge_graph_def Let_def)
qed

lemma load_from_edge_list_total:
  "endpoints_exist g \<Longrightarrow> \<exists>g'. load_from_edge_list g l = Inr g' \<and> endpoints_exist g'"
proof (induction l arbitrary: g)
  case Nil
  then show ?case by simp
next
  case (Cons x l)
  obtain u v d t where x: "x = (u, v, d, t)" by (cases x) auto
  from Cons.prems have "endpoints_exist (add_edge_graph g u v d t True)"
    by (rule endpoints_exist_add_edge_graph)
  from Cons.IH [OF this] show ?case
    by (simp add: x add_edge_Inr)
qed

lemma endpoints_exist_empty: "endpoints_exist empty_graph"
  by (simp add: endpoints_exist_def empty_graph_def)


lemma neighbors_update:
  "neighbors (g\<lparr>adj := AList.update k v (adj g)\<rparr>) x = (if x = k then v else neighbors g x)"
  by (simp add: neighbors_def update_conv')

lemma neighbors_add_node: "neighbors (add_node g n c) x = neighbors g x"
proof -
  have "neighbors (add_node g n None) x = neighbors g x"
    by (auto simp: neighbors_def adj_add_node_None update_conv' has_key_def)
  then show ?thesis
    by (simp add: neighbors_def adj_add_node [of g n c])
qed






lemma dijkstra_relax_err: "dijkstra_relax u c es st = Inl err \<Longrightarrow> \<exists>k. err = KeyError k"
  by (induction es arbitrary: st) (auto simp: Let_def split: option.splits if_splits)

lemma dijkstra_loop_err:
  assumes "dijkstra_loop g st = Some r"
  shows "\<forall>err. r = Inl err \<longrightarrow> (\<exists>k. err = KeyError k)"
  using assms
  by (rule dijkstra_loop.raw_induct [rotated])
    (auto split: option.splits if_splits sum.splits dest: dijkstra_relax_err)

lemma a_star_relax_err: "a_star_relax g goal c es st = Inl err \<Longrightarrow> \<exists>k. err = KeyError k"
  by (induction es arbitrary: st) (auto simp: Let_def split: option.splits if_splits)

lemma a_star_loop_err:
  assumes "a_star_loop g start goal st = Some r"
  shows "\<forall>err. r = Inl err \<longrightarrow> (\<exists>k. err = KeyError k)"
  using assms
  by (rule a_star_loop.raw_induct [rotated])
    (auto split: option.splits if_splits sum.splits dest: a_star_relax_err)

lemma dijkstra_no_ValueError:
  assumes "has_key (adj g) start"
  shows "dijkstra g start \<noteq> Some (Inl (ValueError m))"
  using assms dijkstra_loop_err
  by (fastforce simp: dijkstra_def split: option.splits sum.splits)

lemma shortest_path_dijkstra_no_ValueError:
  assumes "has_key (adj g) start"
  shows "shortest_path_dijkstra g start end_node \<noteq> Some (Inl (ValueError m))"
  using dijkstra_no_ValueError [OF assms]
  by (auto simp: shortest_path_dijkstra_def split: option.splits sum.splits if_splits)

lemma a_star_no_ValueError:
  assumes "has_key (adj g) start" "has_key (adj g) goal"
  shows "a_star g start goal \<noteq> Some (Inl (ValueError m))"
  using assms a_star_loop_err
  by (fastforce simp: a_star_def)

section \<open>Labels, paths and the two search loops\<close>

lemma pyfloat_le_PosInf [simp]: "(x::pyfloat) \<le> PosInf"
  by (cases x) auto

lemma PosInf_le_iff [simp]: "PosInf \<le> x \<longleftrightarrow> x = PosInf"
  by (cases x) auto

lemma not_PosInf_iff: "x \<noteq> PosInf \<longleftrightarrow> (\<exists>c. x = Fin c)"
  by (cases x) auto

lemma less_PosInf_iff: "x < PosInf \<longleftrightarrow> x \<noteq> PosInf"
  by (cases x) auto


lemma pyfloat_add_mono: "(a::pyfloat) \<le> b \<Longrightarrow> a + c \<le> b + c"
  by (cases a; cases b; cases c) auto

lemma pyfloat_add_left_mono: "(a::pyfloat) \<le> b \<Longrightarrow> c + a \<le> c + b"
  by (cases a; cases b; cases c) auto





























lemma in_remove1: "x \<in> set q \<Longrightarrow> x \<noteq> m \<Longrightarrow> x \<in> set (remove1 m q)"
  by simp









lemma chain_props:
  assumes "chain P s p v"
  shows "p \<noteq> [] \<and> hd p = s \<and> last p = v"
  using assms by induction (auto simp: hd_append)



lemma pyfloat_add_assoc: "(a::pyfloat) + b + c = a + (b + c)"
  by (cases a; cases b; cases c) auto

lemma pyfloat_add_commute: "(a::pyfloat) + b = b + a"
  by (cases a; cases b) auto

lemma pyfloat_add_zero [simp]: "(a::pyfloat) + Fin 0 = a" "Fin 0 + a = a"
  by (cases a; simp)+

lemma pyfloat_add_mono2: "(a::pyfloat) \<le> b \<Longrightarrow> c \<le> d \<Longrightarrow> a + c \<le> b + d"
  by (cases a; cases b; cases c; cases d) auto

lemma path_weight_snoc:
  "p \<noteq> [] \<Longrightarrow> path_weight g (p @ [v]) = path_weight g p + min_weight g (last p) v"
proof (induction g p rule: path_weight.induct)
  case (1 g u x rest)
  then show ?case by (simp add: pyfloat_add_assoc)
next
  case (2 g u)
  then show ?case by simp
next
  case (3 g)
  then show ?case by simp
qed

lemma min_weight_eq:
  "min_weight g u v =
     Min (insert PosInf ((\<lambda>e. Fin (effective_weight e)) ` {e \<in> set (neighbors g u). to_node e = v}))"
proof -
  have "min_weight g u v =
      Min (set (PosInf # map (\<lambda>e. Fin (effective_weight e)) (filter (\<lambda>e. to_node e = v) (neighbors g u))))"
    unfolding min_weight_def by (simp only: Min.set_eq_fold)
  then show ?thesis by simp
qed

lemma min_weight_le:
  assumes "e \<in> set (neighbors g u)" "to_node e = v"
  shows "min_weight g u v \<le> Fin (effective_weight e)"
  unfolding min_weight_eq using assms by (intro Min_le) auto



lemma link_min_weight:
  assumes "labels_ok g start L P" "P v = Some u"
  shows "L u + min_weight g u v \<le> L v"
proof -
  from assms obtain e where e: "e \<in> set (neighbors g u)" "to_node e = v"
    and le: "L u + Fin (effective_weight e) \<le> L v"
    unfolding labels_ok_def by blast
  have "L u + min_weight g u v \<le> L u + Fin (effective_weight e)"
    by (rule pyfloat_add_left_mono [OF min_weight_le [OF e]])
  with le show ?thesis by simp
qed

lemma chain_weight_le:
  assumes ok: "labels_ok g start L P" and ch: "chain P start p v"
  shows "path_weight g p \<le> L v"
  using ch
proof induction
  case chain_start
  from ok show ?case by (simp add: labels_ok_def)
next
  case (chain_step p u v)
  have ne: "p \<noteq> []" and last: "last p = u" using chain_props [OF chain_step.hyps(1)] by simp_all
  have "path_weight g (p @ [v]) = path_weight g p + min_weight g u v"
    by (simp add: path_weight_snoc [OF ne] last)
  also have "\<dots> \<le> L u + min_weight g u v"
    by (rule pyfloat_add_mono [OF chain_step.IH])
  also have "\<dots> \<le> L v" by (rule link_min_weight [OF ok chain_step.hyps(2)])
  finally show ?case .
qed







lemma heuristic_self: "heuristic g a a = 0"
  by (simp add: heuristic_def hypot_def split: option.splits)





































section \<open>Claims about graph mutation, stored values and input validation\<close>



text \<open>
  C8. Every identifier that is the target of a stored edge is a key of the adjacency
  mapping (the sources are its keys). This holds of the empty graph and is kept by
  \<open>add_node\<close>, \<open>add_edge\<close> and \<open>load_from_edge_list\<close>, which all return normally;
  after \<open>add_edge(u, v, ...)\<close> both \<open>u\<close> and \<open>v\<close> are nodes.
\<close>

theorem endpoints_exist_invariant:
  "endpoints_exist empty_graph \<and>
   (endpoints_exist g \<longrightarrow> endpoints_exist (add_node g n c)) \<and>
   (endpoints_exist g \<longrightarrow>
      (\<exists>g'. add_edge g u v d t b = Inr g' \<and> endpoints_exist g' \<and>
            has_key (adj g') u \<and> has_key (adj g') v)) \<and>
   (endpoints_exist g \<longrightarrow> (\<exists>g'. load_from_edge_list g l = Inr g' \<and> endpoints_exist g'))"
  by (simp add: endpoints_exist_empty endpoints_exist_add_node add_edge_Inr
      endpoints_exist_add_edge_graph has_key_add_edge_graph load_from_edge_list_total)

theorem endpoints_exist_invariant_witness:
  "endpoints_exist empty_graph \<and>
   endpoints_exist (add_node empty_graph ''A'' (Some (PyInt 0, PyInt 0))) \<and>
   (\<exists>g'. add_edge empty_graph ''A'' ''B'' (PyInt 4) (PyFloat 1) True = Inr g' \<and>
         endpoints_exist g' \<and> has_key (adj g') ''A'' \<and> has_key (adj g') ''B'') \<and>
   (\<exists>g'. load_from_edge_list empty_graph get_sample_edges = Inr g' \<and> endpoints_exist g')"
  using endpoints_exist_invariant [of empty_graph "''A''" "Some (PyInt 0, PyInt 0)" "''A''" "''B''"
      "PyInt 4" "PyFloat 1" True get_sample_edges]
  by simp



text \<open>
  C4. A query whose start node is not a key of the adjacency mapping raises the
  input-validation error (\<open>ValueError\<close>) in \<open>dijkstra\<close>, \<open>shortest_path_dijkstra\<close> and
  \<open>a_star\<close>; \<open>a_star\<close> raises it as well when the goal is not a key. In every other
  case none of the three raises it.
\<close>

theorem unknown_nodes_raise_ValueError:
  "(\<not> has_key (adj g) start \<longrightarrow>
      (\<exists>m. dijkstra g start = Some (Inl (ValueError m))) \<and>
      (\<exists>m. shortest_path_dijkstra g start goal = Some (Inl (ValueError m))) \<and>
      (\<exists>m. a_star g start goal = Some (Inl (ValueError m)))) \<and>
   (\<not> has_key (adj g) goal \<longrightarrow> (\<exists>m. a_star g start goal = Some (Inl (ValueError m)))) \<and>
   (has_key (adj g) start \<longrightarrow>
      (\<forall>m. dijkstra g start \<noteq> Some (Inl (ValueError m))) \<and>
      (\<forall>m. shortest_path_dijkstra g start goal \<noteq> Some (Inl (ValueError m)))) \<and>
   (has_key (adj g) start \<and> has_key (adj g) goal \<longrightarrow>
      (\<forall>m. a_star g start goal \<noteq> Some (Inl (ValueError m))))"
proof (intro conjI impI allI)
  assume "\<not> has_key (adj g) start"
  then show "\<exists>m. dijkstra g start = Some (Inl (ValueError m))"
    and "\<exists>m. shortest_path_dijkstra g start goal = Some (Inl (ValueError m))"
    and "\<exists>m. a_star g start goal = Some (Inl (ValueError m))"
    by (simp_all add: dijkstra_def shortest_path_dijkstra_def a_star_def)
next
  assume "\<not> has_key (adj g) goal"
  then show "\<exists>m. a_star g start goal = Some (Inl (ValueError m))"
    by (simp add: a_star_def)
next
  fix m
  assume "has_key (adj g) start"
  then show "dijkstra g start \<noteq> Some (Inl (ValueError m))"
    and "shortest_path_dijkstra g start goal \<noteq> Some (Inl (ValueError m))"
    by (rule dijkstra_no_ValueError, rule shortest_path_dijkstra_no_ValueError)
next
  fix m
  assume "has_key (adj g) start \<and> has_key (adj g) goal"
  then show "a_star g start goal \<noteq> Some (Inl (ValueError m))"
    by (simp add: a_star_no_ValueError)
qed

theorem unknown_nodes_raise_ValueError_witness:
  "(\<exists>m. dijkstra empty_graph ''A'' = Some (Inl (ValueError m))) \<and>
   (\<exists>m. shortest_path_dijkstra empty_graph ''A'' ''Z'' = Some (Inl (ValueError m))) \<and>
   (\<exists>m. a_star empty_graph ''A'' ''Z'' = Some (Inl (ValueError m))) \<and>
   (\<exists>m. a_star sample_graph ''A'' ''Q'' = Some (Inl (ValueError m))) \<and>
   (\<forall>m. dijkstra sample_graph ''A'' \<noteq> Some (Inl (ValueError m))) \<and>
   (\<forall>m. shortest_path_dijkstra sample_graph ''A'' ''Z'' \<noteq> Some (Inl (ValueError m))) \<and>
   (\<forall>m. a_star sample_graph ''A'' ''Z'' \<noteq> Some (Inl (ValueError m)))"
proof -
  have a: "\<not> has_key (adj empty_graph) ''A''"
    by (simp add: has_key_def empty_graph_def)
  have b: "has_key (adj sample_graph) ''A''" "has_key (adj sample_graph) ''Z''"
    "\<not> has_key (adj sample_graph) ''Q''"
    by code_simp+
  show ?thesis
    using unknown_nodes_raise_ValueError [of empty_graph "''A''" "''Z''"]
      unknown_nodes_raise_ValueError [of sample_graph "''A''" "''Z''"]
      unknown_nodes_raise_ValueError [of sample_graph "''A''" "''Q''"] a b
    by blast
qed

section \<open>The sample graph\<close>

lemma sample_graph_loaded: "load_from_edge_list empty_graph get_sample_edges = Inr sample_graph"
  by code_simp

lemma sample_dijkstra_value:
  "shortest_path_dijkstra sample_graph ''A'' ''Z'' =
     Some (Inr ([''A'', ''C'', ''B'', ''D'', ''E'', ''Z''], Fin (139 / 10)))"
  by code_simp

lemma sample_min_weights:
  "min_weight sample_graph ''A'' ''C'' = Fin (24 / 10)"
  "min_weight sample_graph ''C'' ''B'' = Fin 1"
  "min_weight sample_graph ''B'' ''D'' = Fin (55 / 10)"
  "min_weight sample_graph ''D'' ''E'' = Fin 2"
  "min_weight sample_graph ''E'' ''Z'' = Fin 3"
  by code_simp+

lemma sample_path_weight:
  "path_weight sample_graph [''A'', ''C'', ''B'', ''D'', ''E'', ''Z''] = Fin (139 / 10)"
  by (simp add: sample_min_weights)

text \<open>
  C2 (as the code has it). On the graph loaded from the nine sample edges the uniform-cost
  point query from A to Z returns the path A, C, B, D, E, Z with cost 13.9, which is the
  sum of the effective weights along that path: 2.4 + 1 + 5.5 + 2 + 3.
\<close>

theorem sample_uniform_cost_query:
  "load_from_edge_list empty_graph get_sample_edges = Inr sample_graph \<and>
   shortest_path_dijkstra sample_graph ''A'' ''Z'' =
     Some (Inr ([''A'', ''C'', ''B'', ''D'', ''E'', ''Z''], Fin (139 / 10))) \<and>
   path_weight sample_graph [''A'', ''C'', ''B'', ''D'', ''E'', ''Z''] = Fin (139 / 10)"
  by (intro conjI) (rule sample_graph_loaded sample_dijkstra_value sample_path_weight)+

text \<open>
  C2, the claim as stated, fails: the query returns no cost within \<open>1e-9\<close> of 12.6.
\<close>

theorem sample_cost_12_6_counterexample:
  "\<not> (\<exists>path c. shortest_path_dijkstra sample_graph ''A'' ''Z'' = Some (Inr (path, Fin c)) \<and>
        \<bar>c - 126 / 10\<bar> \<le> 1 / 10 ^ 9)"
  by (simp add: sample_dijkstra_value)

section \<open>Claims about the two searches\<close>


























end
